theory Spec2Isabelle
  imports Main "HOL-Library.Word"
begin

section \<open>The reflection database of clReflect (ClangReflectCore/Database.h)\<close>

subsection \<open>Names\<close>

type_synonym u32 = "32 word"

text \<open>
  \<^verbatim>\<open>typedef std::map<u32, std::string> NameMap;\<close>
\<close>

type_synonym NameMap = "u32 \<rightharpoonup> string"

text \<open>
  \<^verbatim>\<open>typedef NameMap::const_iterator Name;\<close>
  A name is an iterator into the name map of its database. A \<open>std::map\<close> holds one node
  for each key, and two iterators into one map are equal exactly when they designate the
  same node, so an iterator is identified with the key of its node: \<open>first\<close> is the
  \<open>->first\<close> of the source, and \<open>==\<close> on names is equality of the keys. The source
  applies \<open>->first\<close> to names without a check, so the past-the-end iterator is not a name
  here.
\<close>

datatype Name = Name (first: u32)

subsection \<open>Primitives\<close>

datatype Kind =
    KIND_NAMESPACE
  | KIND_TYPE
  | KIND_CLASS
  | KIND_ENUM
  | KIND_ENUM_CONSTANT
  | KIND_FUNCTION
  | KIND_FIELD

record Primitive =
  kind :: Kind
  name :: Name
  parent :: Name

text \<open>
  \<open>Namespace\<close>, \<open>Type\<close> and \<open>Enum\<close> add no member to their base. The members
  \<open>size\<close> of \<open>Class\<close> and \<open>value\<close> of \<open>EnumConstant\<close> are \<open>size_c\<close> and
  \<open>value_c\<close> here, their names being taken by Isabelle/HOL. \<open>__int64\<close> is a 64-bit
  word and \<open>int\<close> a 32-bit word.
\<close>

type_synonym Namespace = Primitive
type_synonym Type = Primitive
type_synonym Enum = Primitive

record Class = Primitive +
  base_class :: Name
  size_c :: u32

record EnumConstant = Primitive +
  value_c :: "64 word"

record Function = Primitive +
  unique_id :: u32

datatype Modifier = MODIFIER_VALUE | MODIFIER_POINTER | MODIFIER_REFERENCE

record Field = Primitive +
  type :: Name
  modifier :: Modifier
  is_const :: bool
  offset :: "32 word"
  parent_unique_id :: u32

text \<open>\<open>EnumConstant::operator ==\<close>, \<open>Function::operator ==\<close>, \<open>Field::operator ==\<close>.\<close>

definition EnumConstant_eq :: "EnumConstant \<Rightarrow> EnumConstant \<Rightarrow> bool" where
  "EnumConstant_eq lhs rhs =
     (name lhs = name rhs \<and>
      parent lhs = parent rhs \<and>
      value_c lhs = value_c rhs)"

definition Function_eq :: "Function \<Rightarrow> Function \<Rightarrow> bool" where
  "Function_eq lhs rhs =
     (name lhs = name rhs \<and>
      parent lhs = parent rhs \<and>
      unique_id lhs = unique_id rhs)"

definition Field_eq :: "Field \<Rightarrow> Field \<Rightarrow> bool" where
  "Field_eq lhs rhs =
     (name lhs = name rhs \<and>
      parent lhs = parent rhs \<and>
      type lhs = type rhs \<and>
      modifier lhs = modifier rhs \<and>
      is_const lhs = is_const rhs \<and>
      offset lhs = offset rhs \<and>
      parent_unique_id lhs = parent_unique_id rhs)"

text \<open>
  The type argument of the member templates is one of the seven primitive structs; a
  primitive handed to a template is a value of one of them.
\<close>

datatype TYPE_arg =
    T_Namespace
  | T_Type
  | T_Class
  | T_Enum
  | T_EnumConstant
  | T_Function
  | T_Field

datatype AnyPrimitive =
    A_Namespace Namespace
  | A_Type Type
  | A_Class Class
  | A_Enum Enum
  | A_EnumConstant EnumConstant
  | A_Function Function
  | A_Field Field

fun TYPE_of :: "AnyPrimitive \<Rightarrow> TYPE_arg" where
  "TYPE_of (A_Namespace p) = T_Namespace"
| "TYPE_of (A_Type p) = T_Type"
| "TYPE_of (A_Class p) = T_Class"
| "TYPE_of (A_Enum p) = T_Enum"
| "TYPE_of (A_EnumConstant p) = T_EnumConstant"
| "TYPE_of (A_Function p) = T_Function"
| "TYPE_of (A_Field p) = T_Field"

fun prim_name :: "AnyPrimitive \<Rightarrow> Name" where
  "prim_name (A_Namespace p) = name p"
| "prim_name (A_Type p) = name p"
| "prim_name (A_Class p) = name p"
| "prim_name (A_Enum p) = name p"
| "prim_name (A_EnumConstant p) = name p"
| "prim_name (A_Function p) = name p"
| "prim_name (A_Field p) = name p"

fun prim_parent :: "AnyPrimitive \<Rightarrow> Name" where
  "prim_parent (A_Namespace p) = parent p"
| "prim_parent (A_Type p) = parent p"
| "prim_parent (A_Class p) = parent p"
| "prim_parent (A_Enum p) = parent p"
| "prim_parent (A_EnumConstant p) = parent p"
| "prim_parent (A_Function p) = parent p"
| "prim_parent (A_Field p) = parent p"

subsection \<open>Primitive stores\<close>

text \<open>
  \<^verbatim>\<open>template <typename TYPE> struct PrimitiveStore : public std::multimap<u32, TYPE>\<close>
  A multimap is the sequence of its elements in iteration order: ascending in the key,
  elements of one key in the order of their insertion. An iterator is the rest of the
  sequence from its position on, \<open>end()\<close> the empty rest.
\<close>

type_synonym 'a PrimitiveStore = "(u32 \<times> 'a) list"

definition sorted_store :: "'a PrimitiveStore \<Rightarrow> bool" where
  "sorted_store store = sorted (map fst store)"

fun lower_bound :: "u32 \<Rightarrow> 'a PrimitiveStore \<Rightarrow> 'a PrimitiveStore" where
  "lower_bound k [] = []"
| "lower_bound k (x # xs) = (if fst x < k then lower_bound k xs else x # xs)"

text \<open>\<open>insert\<close> of one element: behind the last element whose key is not greater.\<close>

fun mm_insert :: "u32 \<times> 'a \<Rightarrow> 'a PrimitiveStore \<Rightarrow> 'a PrimitiveStore" where
  "mm_insert kv [] = [kv]"
| "mm_insert kv (x # xs) = (if fst kv < fst x then kv # x # xs else x # mm_insert kv xs)"

text \<open>
  \<open>find\<close>: the element at the lower bound when its key is the one asked for, that is
  the first element of that key, as the tree of the standard library finds it.
\<close>

definition mm_find :: "u32 \<Rightarrow> 'a PrimitiveStore \<Rightarrow> (u32 \<times> 'a) option" where
  "mm_find k store =
     (case lower_bound k store of
        [] \<Rightarrow> None
      | x # xs \<Rightarrow> if k < fst x then None else Some x)"

text \<open>\<open>equal_range\<close>: the elements from the lower bound up to the upper bound.\<close>

definition equal_range :: "u32 \<Rightarrow> 'a PrimitiveStore \<Rightarrow> 'a PrimitiveStore" where
  "equal_range k store = takeWhile (\<lambda>x. \<not> k < fst x) (lower_bound k store)"

text \<open>\<open>insert(first, last)\<close>: the elements of a range, one after the other.\<close>

fun mm_insert_range :: "'a PrimitiveStore \<Rightarrow> 'a PrimitiveStore \<Rightarrow> 'a PrimitiveStore" where
  "mm_insert_range [] store = store"
| "mm_insert_range (kv # kvs) store = mm_insert_range kvs (mm_insert kv store)"

subsection \<open>The database\<close>

record Database =
  m_Names :: NameMap
  m_Namespaces :: "Namespace PrimitiveStore"
  m_Types :: "Type PrimitiveStore"
  m_Classes :: "Class PrimitiveStore"
  m_Enums :: "Enum PrimitiveStore"
  m_EnumConstants :: "EnumConstant PrimitiveStore"
  m_Functions :: "Function PrimitiveStore"
  m_Fields :: "Field PrimitiveStore"
  m_UnnamedFields :: "Field PrimitiveStore"

text \<open>
  \<open>GetPrimitiveStore\<close> and \<open>GetUnnamedPrimitiveStore\<close> return a reference to a member
  of the database: the model returns which member.
\<close>

datatype store_ref =
    Ref_Namespaces
  | Ref_Types
  | Ref_Classes
  | Ref_Enums
  | Ref_EnumConstants
  | Ref_Functions
  | Ref_Fields
  | Ref_UnnamedFields

datatype error = AssertionFailed

fun GetPrimitiveStore :: "TYPE_arg \<Rightarrow> store_ref" where
  "GetPrimitiveStore T_Namespace = Ref_Namespaces"
| "GetPrimitiveStore T_Type = Ref_Types"
| "GetPrimitiveStore T_Class = Ref_Classes"
| "GetPrimitiveStore T_Enum = Ref_Enums"
| "GetPrimitiveStore T_EnumConstant = Ref_EnumConstants"
| "GetPrimitiveStore T_Function = Ref_Functions"
| "GetPrimitiveStore T_Field = Ref_Fields"

text \<open>
  The primary template is
  \<^verbatim>\<open>assert(false && "No unnamed primitive store for primitives of this type");\<close>
  and only \<open>Field\<close> has a specialisation.
\<close>

fun GetUnnamedPrimitiveStore :: "TYPE_arg \<Rightarrow> error + store_ref" where
  "GetUnnamedPrimitiveStore T_Field = Inr Ref_UnnamedFields"
| "GetUnnamedPrimitiveStore T = Inl AssertionFailed"

text \<open>
  Reading a store through a reference. The stores hold values of different structs, so
  the elements are read as \<open>AnyPrimitive\<close>.
\<close>

definition tagged :: "('a \<Rightarrow> AnyPrimitive) \<Rightarrow> 'a PrimitiveStore \<Rightarrow> AnyPrimitive PrimitiveStore" where
  "tagged A store = map (\<lambda>x. (fst x, A (snd x))) store"

fun store_contents :: "store_ref \<Rightarrow> Database \<Rightarrow> AnyPrimitive PrimitiveStore" where
  "store_contents Ref_Namespaces db = tagged A_Namespace (m_Namespaces db)"
| "store_contents Ref_Types db = tagged A_Type (m_Types db)"
| "store_contents Ref_Classes db = tagged A_Class (m_Classes db)"
| "store_contents Ref_Enums db = tagged A_Enum (m_Enums db)"
| "store_contents Ref_EnumConstants db = tagged A_EnumConstant (m_EnumConstants db)"
| "store_contents Ref_Functions db = tagged A_Function (m_Functions db)"
| "store_contents Ref_Fields db = tagged A_Field (m_Fields db)"
| "store_contents Ref_UnnamedFields db = tagged A_Field (m_UnnamedFields db)"

text \<open>
  \<^verbatim>\<open>store.insert(PrimitiveStore<TYPE>::value_type(key, prim));\<close>
  through a reference. A \<open>PrimitiveStore<TYPE>&\<close> takes values of \<open>TYPE\<close> only; the
  last equation stands for the combinations that do not compile.
\<close>

fun store_insert :: "store_ref \<Rightarrow> u32 \<Rightarrow> AnyPrimitive \<Rightarrow> Database \<Rightarrow> Database" where
  "store_insert Ref_Namespaces k (A_Namespace p) db =
     db\<lparr>m_Namespaces := mm_insert (k, p) (m_Namespaces db)\<rparr>"
| "store_insert Ref_Types k (A_Type p) db =
     db\<lparr>m_Types := mm_insert (k, p) (m_Types db)\<rparr>"
| "store_insert Ref_Classes k (A_Class p) db =
     db\<lparr>m_Classes := mm_insert (k, p) (m_Classes db)\<rparr>"
| "store_insert Ref_Enums k (A_Enum p) db =
     db\<lparr>m_Enums := mm_insert (k, p) (m_Enums db)\<rparr>"
| "store_insert Ref_EnumConstants k (A_EnumConstant p) db =
     db\<lparr>m_EnumConstants := mm_insert (k, p) (m_EnumConstants db)\<rparr>"
| "store_insert Ref_Functions k (A_Function p) db =
     db\<lparr>m_Functions := mm_insert (k, p) (m_Functions db)\<rparr>"
| "store_insert Ref_Fields k (A_Field p) db =
     db\<lparr>m_Fields := mm_insert (k, p) (m_Fields db)\<rparr>"
| "store_insert Ref_UnnamedFields k (A_Field p) db =
     db\<lparr>m_UnnamedFields := mm_insert (k, p) (m_UnnamedFields db)\<rparr>"
| "store_insert r k p db = db"

text \<open>
  \<open>Database::AddPrimitive\<close>. \<open>GetNoName\<close> is declared in the header and defined
  elsewhere: the name it returns is the parameter \<open>noName\<close>.
\<close>

definition AddPrimitive :: "Name \<Rightarrow> AnyPrimitive \<Rightarrow> Database \<Rightarrow> error + Database" where
  "AddPrimitive noName prim db =
     (if prim_name prim = noName then
        (case GetUnnamedPrimitiveStore (TYPE_of prim) of
           Inl e \<Rightarrow> Inl e
         | Inr store \<Rightarrow> Inr (store_insert store (first (prim_parent prim)) prim db))
      else
        Inr (store_insert (GetPrimitiveStore (TYPE_of prim)) (first (prim_name prim)) prim db))"

text \<open>
  \<open>Database::GetFirstPrimitive\<close>, a \<open>const\<close> member: the result is the pointer (\<open>None\<close>
  for the null pointer) and the database after the call. \<open>HashNameString\<close> is declared
  in the header and defined elsewhere: it is the parameter of that name.
\<close>

definition GetFirstPrimitive ::
  "(string \<Rightarrow> u32) \<Rightarrow> TYPE_arg \<Rightarrow> string \<Rightarrow> Database \<Rightarrow> AnyPrimitive option \<times> Database" where
  "GetFirstPrimitive HashNameString T name_string db =
     (let store = store_contents (GetPrimitiveStore T) db;
          name = HashNameString name_string
      in case mm_find name store of
           Some i \<Rightarrow> (Some (snd i), db)
         | None \<Rightarrow> (None, db))"

text \<open>
  A \<open>std::multimap\<close> keeps its elements in the order of the keys at all times; of the
  lists above, the sorted ones are stores.
\<close>

definition Database_wf :: "Database \<Rightarrow> bool" where
  "Database_wf db =
     (sorted_store (m_Namespaces db) \<and>
      sorted_store (m_Types db) \<and>
      sorted_store (m_Classes db) \<and>
      sorted_store (m_Enums db) \<and>
      sorted_store (m_EnumConstants db) \<and>
      sorted_store (m_Functions db) \<and>
      sorted_store (m_Fields db) \<and>
      sorted_store (m_UnnamedFields db))"

text \<open>
  The query for all primitives of one key, in iteration order: the \<open>range\<close> of
  \<open>PrimitiveStore\<close>, as \<open>equal_range\<close> returns it.
\<close>

definition findAll :: "store_ref \<Rightarrow> u32 \<Rightarrow> Database \<Rightarrow> AnyPrimitive list" where
  "findAll store k db = map snd (equal_range k (store_contents store db))"

text \<open>
  A database whose stores are empty, as the default constructors of the members leave
  them, over any name map.
\<close>

definition empty_stores :: "NameMap \<Rightarrow> Database" where
  "empty_stores names =
     \<lparr>m_Names = names, m_Namespaces = [], m_Types = [], m_Classes = [], m_Enums = [],
      m_EnumConstants = [], m_Functions = [], m_Fields = [], m_UnnamedFields = []\<rparr>"

text \<open>A caller adding primitives one after the other; the first failed assertion ends it.\<close>

fun AddPrimitives :: "Name \<Rightarrow> AnyPrimitive list \<Rightarrow> Database \<Rightarrow> error + Database" where
  "AddPrimitives noName [] db = Inr db"
| "AddPrimitives noName (prim # prims) db =
     (case AddPrimitive noName prim db of
        Inl e \<Rightarrow> Inl e
      | Inr db' \<Rightarrow> AddPrimitives noName prims db')"

text \<open>
  Modelled from the spec: \<open>Database::Merge\<close> is declared in the header and defined
  elsewhere. "For every kind, unions other's named store and (for Field) unnamed store
  into this's corresponding stores - a plain multi-map union that preserves duplicates and
  insertion order within each side, concatenating other's entries after this's existing
  entries for each key. [...] other is left unmodified." The result is the pair of
  \<open>this\<close> and \<open>other\<close> after the call. The spec's sentence does not speak of the name
  map, which stays as it is here.
\<close>

definition Merge :: "Database \<Rightarrow> Database \<Rightarrow> Database \<times> Database" where
  "Merge this other =
     (this\<lparr>m_Namespaces := mm_insert_range (m_Namespaces other) (m_Namespaces this),
           m_Types := mm_insert_range (m_Types other) (m_Types this),
           m_Classes := mm_insert_range (m_Classes other) (m_Classes this),
           m_Enums := mm_insert_range (m_Enums other) (m_Enums this),
           m_EnumConstants := mm_insert_range (m_EnumConstants other) (m_EnumConstants this),
           m_Functions := mm_insert_range (m_Functions other) (m_Functions this),
           m_Fields := mm_insert_range (m_Fields other) (m_Fields this),
           m_UnnamedFields := mm_insert_range (m_UnnamedFields other) (m_UnnamedFields this)\<rparr>,
      other)"

text \<open>
  The store and the key of \<open>AddPrimitive\<close>'s insertion, for the statements below.
\<close>

definition target_store :: "Name \<Rightarrow> AnyPrimitive \<Rightarrow> store_ref" where
  "target_store noName prim =
     (if prim_name prim = noName then Ref_UnnamedFields else GetPrimitiveStore (TYPE_of prim))"

definition target_key :: "Name \<Rightarrow> AnyPrimitive \<Rightarrow> u32" where
  "target_key noName prim =
     (if prim_name prim = noName then first (prim_parent prim) else first (prim_name prim))"

subsection \<open>Example values\<close>

definition fresh_db :: Database where
  "fresh_db = empty_stores Map.empty"

definition namespace_anon :: Namespace where
  "namespace_anon = \<lparr>kind = KIND_NAMESPACE, name = Name 0, parent = Name 7\<rparr>"

definition class_Foo :: Class where
  "class_Foo = \<lparr>kind = KIND_CLASS, name = Name 5, parent = Name 0, base_class = Name 0, size_c = 8\<rparr>"

definition field_x :: Field where
  "field_x = \<lparr>kind = KIND_FIELD, name = Name 11, parent = Name 5, type = Name 3,
     modifier = MODIFIER_VALUE, is_const = False, offset = 0, parent_unique_id = 0\<rparr>"

definition field_anon :: Field where
  "field_anon = \<lparr>kind = KIND_FIELD, name = Name 0, parent = Name 5, type = Name 3,
     modifier = MODIFIER_POINTER, is_const = True, offset = 4, parent_unique_id = 0\<rparr>"

definition function_f :: Function where
  "function_f = \<lparr>kind = KIND_FUNCTION, name = Name 20, parent = Name 0, unique_id = 1\<rparr>"

definition enum_constant_A :: EnumConstant where
  "enum_constant_A = \<lparr>kind = KIND_ENUM_CONSTANT, name = Name 30, parent = Name 31, value_c = 2\<rparr>"

definition db_A :: Database where
  "db_A = fresh_db\<lparr>m_Functions := [(20, function_f)], m_UnnamedFields := [(5, field_anon)]\<rparr>"

definition db_B :: Database where
  "db_B = fresh_db\<lparr>m_Functions := [(20, function_f\<lparr>unique_id := 2\<rparr>)],
     m_Fields := [(11, field_x)]\<rparr>"

definition db_C :: Database where
  "db_C = fresh_db\<lparr>m_Classes := [(5, class_Foo)], m_Fields := [(11, field_x)],
     m_UnnamedFields := [(5, field_anon)]\<rparr>"

definition function_g :: Function where
  "function_g = \<lparr>kind = KIND_FUNCTION, name = Name 1, parent = Name 0, unique_id = 0\<rparr>"

definition function_h :: Function where
  "function_h = \<lparr>kind = KIND_FUNCTION, name = Name 7, parent = Name 0, unique_id = 0\<rparr>"

definition db_D :: Database where
  "db_D = fresh_db\<lparr>m_Functions := [(1, function_g), (20, function_f\<lparr>unique_id := 2\<rparr>)],
     m_Classes := [(5, class_Foo)]\<rparr>"

text \<open>A stand-in for the hash of a string, for the examples: its length.\<close>

definition length_hash :: "string \<Rightarrow> u32" where
  "length_hash s = of_nat (length s)"

section \<open>Multimaps\<close>

lemma tagged_mm_insert:
  "tagged A (mm_insert (k, p) store) = mm_insert (k, A p) (tagged A store)"
  by (induction store) (auto simp: tagged_def)

lemma sorted_store_tagged: "sorted_store (tagged A store) = sorted_store store"
  by (simp add: sorted_store_def tagged_def comp_def)

lemma set_mm_insert: "set (mm_insert kv store) = insert kv (set store)"
  by (induction store) auto

lemma length_mm_insert: "length (mm_insert kv store) = Suc (length store)"
  by (induction store) auto

lemma sorted_store_mm_insert:
  "sorted_store store \<Longrightarrow> sorted_store (mm_insert kv store)"
  by (induction store) (auto simp: sorted_store_def set_mm_insert)

text \<open>In a sorted store the equal range of a key is the elements of that key.\<close>

lemma takeWhile_upper_filter:
  "sorted_store store \<Longrightarrow> \<forall>y\<in>set store. k \<le> fst y \<Longrightarrow>
   takeWhile (\<lambda>y. \<not> k < fst y) store = filter (\<lambda>y. fst y = k) store"
proof (induction store)
  case Nil
  then show ?case by simp
next
  case (Cons x xs)
  show ?case
  proof (cases "k < fst x")
    case True
    have "\<forall>y\<in>set xs. fst x \<le> fst y" using Cons.prems(1) by (auto simp: sorted_store_def)
    then have "filter (\<lambda>y. fst y = k) xs = []" using True by (auto simp: filter_empty_conv)
    then show ?thesis using True by auto
  next
    case False
    then have "fst x = k" using Cons.prems(2) by auto
    moreover have "sorted_store xs" using Cons.prems(1) by (simp add: sorted_store_def)
    ultimately show ?thesis using Cons.IH Cons.prems(2) by auto
  qed
qed

lemma equal_range_filter:
  "sorted_store store \<Longrightarrow> equal_range k store = filter (\<lambda>x. fst x = k) store"
proof (induction store)
  case Nil
  then show ?case by (simp add: equal_range_def)
next
  case (Cons x xs)
  then have srt: "sorted_store xs" and ge: "\<forall>y\<in>set xs. fst x \<le> fst y"
    by (auto simp: sorted_store_def)
  show ?case
  proof (cases "fst x < k")
    case True
    then show ?thesis using Cons.IH srt by (auto simp: equal_range_def)
  next
    case False
    then have "\<forall>y\<in>set (x # xs). k \<le> fst y" using ge by auto
    from takeWhile_upper_filter [OF Cons.prems this] False
    show ?thesis by (simp add: equal_range_def)
  qed
qed

lemma filter_mm_insert:
  "sorted_store store \<Longrightarrow>
   filter (\<lambda>x. fst x = k) (mm_insert kv store) =
   filter (\<lambda>x. fst x = k) store @ (if fst kv = k then [kv] else [])"
proof (induction store)
  case Nil
  then show ?case by simp
next
  case (Cons x xs)
  then have srt: "sorted_store xs" and ge: "\<forall>y\<in>set xs. fst x \<le> fst y"
    by (auto simp: sorted_store_def)
  show ?case
  proof (cases "fst kv < fst x")
    case True
    then have "fst kv = k \<Longrightarrow> filter (\<lambda>y. fst y = k) xs = []"
      using ge by (auto simp: filter_empty_conv)
    then show ?thesis using True by auto
  next
    case False
    then show ?thesis using Cons.IH srt by auto
  qed
qed

lemma equal_range_mm_insert:
  "sorted_store store \<Longrightarrow>
   equal_range k (mm_insert kv store) =
   equal_range k store @ (if fst kv = k then [kv] else [])"
  by (simp add: equal_range_filter sorted_store_mm_insert filter_mm_insert)

lemma mm_find_equal_range:
  "mm_find k store = (case equal_range k store of [] \<Rightarrow> None | x # xs \<Rightarrow> Some x)"
  by (simp add: mm_find_def equal_range_def split: list.splits)

lemma mm_find_None: "k \<notin> fst ` set store \<Longrightarrow> mm_find k store = None"
  by (induction store) (auto simp: mm_find_def split: list.splits)

lemma tagged_mm_insert_range:
  "tagged A (mm_insert_range other store) = mm_insert_range (tagged A other) (tagged A store)"
proof (induction other arbitrary: store)
  case Nil
  then show ?case by (simp add: tagged_def)
next
  case (Cons kv kvs)
  have "tagged A (kv # kvs) = (fst kv, A (snd kv)) # tagged A kvs" by (simp add: tagged_def)
  then show ?case using Cons [of "mm_insert kv store"] tagged_mm_insert [of A "fst kv" "snd kv" store]
    by simp
qed

lemma sorted_store_mm_insert_range:
  "sorted_store store \<Longrightarrow> sorted_store (mm_insert_range other store)"
  by (induction other arbitrary: store) (simp_all add: sorted_store_mm_insert)

lemma filter_mm_insert_range:
  "sorted_store store \<Longrightarrow>
   filter (\<lambda>x. fst x = k) (mm_insert_range other store) =
   filter (\<lambda>x. fst x = k) store @ filter (\<lambda>x. fst x = k) other"
  by (induction other arbitrary: store) (simp_all add: sorted_store_mm_insert filter_mm_insert)

lemma equal_range_mm_insert_range:
  "sorted_store store \<Longrightarrow> sorted_store other \<Longrightarrow>
   equal_range k (mm_insert_range other store) = equal_range k store @ equal_range k other"
  by (simp add: equal_range_filter sorted_store_mm_insert_range filter_mm_insert_range)

lemma length_mm_insert_range:
  "length (mm_insert_range other store) = length store + length other"
  by (induction other arbitrary: store) (simp_all add: length_mm_insert)

lemma mm_insert_neq: "mm_insert kv store \<noteq> store"
  using length_mm_insert [of kv store] by (metis n_not_Suc_n)

section \<open>The effect of AddPrimitive on the stores\<close>

lemma store_contents_AddPrimitive:
  assumes "AddPrimitive noName prim db = Inr db'"
  shows "store_contents r db' =
    (if r = target_store noName prim
     then mm_insert (target_key noName prim, prim) (store_contents r db)
     else store_contents r db)"
  using assms
  by (cases prim; cases r)
     (auto simp: AddPrimitive_def target_store_def target_key_def tagged_mm_insert
           split: if_splits)

lemma m_Names_AddPrimitive:
  assumes "AddPrimitive noName prim db = Inr db'"
  shows "m_Names db' = m_Names db"
  using assms
  by (cases prim) (auto simp: AddPrimitive_def split: if_splits)

lemma Database_wf_iff: "Database_wf db \<longleftrightarrow> (\<forall>r. sorted_store (store_contents r db))"
proof
  assume "Database_wf db"
  then show "\<forall>r. sorted_store (store_contents r db)"
    by (auto simp: Database_wf_def sorted_store_tagged intro: store_ref.induct)
next
  assume a: "\<forall>r. sorted_store (store_contents r db)"
  show "Database_wf db"
    unfolding Database_wf_def
    using a [rule_format, of Ref_Namespaces] a [rule_format, of Ref_Types]
      a [rule_format, of Ref_Classes] a [rule_format, of Ref_Enums]
      a [rule_format, of Ref_EnumConstants] a [rule_format, of Ref_Functions]
      a [rule_format, of Ref_Fields] a [rule_format, of Ref_UnnamedFields]
    by (simp add: sorted_store_tagged)
qed

lemma Database_wf_AddPrimitive:
  assumes "Database_wf db" and "AddPrimitive noName prim db = Inr db'"
  shows "Database_wf db'"
  using assms
  by (simp add: Database_wf_iff store_contents_AddPrimitive sorted_store_mm_insert)

lemma Database_wf_empty_stores: "Database_wf (empty_stores names)"
  by (simp add: Database_wf_def empty_stores_def sorted_store_def)

lemma findAll_empty_stores: "findAll r k (empty_stores names) = []"
  by (cases r) (simp_all add: findAll_def empty_stores_def equal_range_def tagged_def)

lemma findAll_AddPrimitive:
  assumes "Database_wf db" and "AddPrimitive noName prim db = Inr db'"
  shows "findAll r k db' =
    findAll r k db @
      (if target_store noName prim = r \<and> target_key noName prim = k then [prim] else [])"
  using assms
  by (auto simp: findAll_def store_contents_AddPrimitive equal_range_mm_insert Database_wf_iff)

lemma findAll_AddPrimitives:
  assumes "Database_wf db" and "AddPrimitives noName prims db = Inr db'"
  shows "findAll r k db' =
    findAll r k db @ filter (\<lambda>p. target_store noName p = r \<and> target_key noName p = k) prims"
  using assms
proof (induction prims arbitrary: db)
  case Nil
  then show ?case by simp
next
  case (Cons p ps)
  from Cons.prems(2) obtain db1 where
    1: "AddPrimitive noName p db = Inr db1" and 2: "AddPrimitives noName ps db1 = Inr db'"
    by (auto split: sum.splits)
  have "Database_wf db1" using Cons.prems(1) 1 by (rule Database_wf_AddPrimitive)
  from Cons.IH [OF this 2] findAll_AddPrimitive [OF Cons.prems(1) 1, of r k]
  show ?case by simp
qed

lemma findAll_filter:
  "Database_wf db \<Longrightarrow>
   findAll r k db = map snd (filter (\<lambda>x. fst x = k) (store_contents r db))"
  by (simp add: findAll_def equal_range_filter Database_wf_iff)

lemma length_store_contents_AddPrimitives:
  "AddPrimitives noName prims db = Inr db' \<Longrightarrow>
   length (store_contents r db') =
     length (store_contents r db) + length (filter (\<lambda>p. target_store noName p = r) prims)"
proof (induction prims arbitrary: db)
  case Nil
  then show ?case by simp
next
  case (Cons p ps)
  from Cons.prems obtain db1 where
    1: "AddPrimitive noName p db = Inr db1" and 2: "AddPrimitives noName ps db1 = Inr db'"
    by (auto split: sum.splits)
  show ?case
    using Cons.IH [OF 2] store_contents_AddPrimitive [OF 1, of r]
    by (simp add: length_mm_insert)
qed

lemma AddPrimitives_named:
  "\<forall>p\<in>set prims. prim_name p \<noteq> noName \<Longrightarrow> \<exists>db'. AddPrimitives noName prims db = Inr db'"
  by (induction prims arbitrary: db) (auto simp: AddPrimitive_def)

lemma GetFirstPrimitive_findAll:
  "fst (GetFirstPrimitive H T s db) =
    (case findAll (GetPrimitiveStore T) (H s) db of [] \<Rightarrow> None | p # ps \<Rightarrow> Some p)"
  by (simp add: GetFirstPrimitive_def findAll_def mm_find_equal_range Let_def
      split: list.splits option.splits)

lemma GetPrimitiveStore_named:
  "GetPrimitiveStore T \<noteq> Ref_UnnamedFields" "Ref_UnnamedFields \<noteq> GetPrimitiveStore T"
  by (cases T; simp)+

lemma GetPrimitiveStore_inj: "GetPrimitiveStore T = GetPrimitiveStore T' \<longleftrightarrow> T = T'"
  by (cases T; cases T') simp_all

lemma m_UnnamedFields_AddPrimitive:
  assumes "AddPrimitive noName prim db = Inr db'" and "prim_name prim \<noteq> noName"
  shows "m_UnnamedFields db' = m_UnnamedFields db"
  using assms by (cases prim) (auto simp: AddPrimitive_def)

lemma store_contents_Merge:
  "store_contents r (fst (Merge this other)) =
     mm_insert_range (store_contents r other) (store_contents r this)"
  by (cases r) (simp_all add: Merge_def tagged_mm_insert_range)

lemmas example_defs =
  fresh_db_def empty_stores_def namespace_anon_def class_Foo_def field_x_def field_anon_def
  function_f_def enum_constant_A_def

section \<open>Insertion\<close>

text \<open>
  C1, as stated, promises the insertion into the unnamed Field store for every primitive
  whose name is the sentinel. A namespace without a name is not inserted anywhere: the
  primary template of \<open>GetUnnamedPrimitiveStore\<close> stops at its assertion.
\<close>

theorem C1_unnamed_namespace_counterexample:
  "prim_name (A_Namespace namespace_anon) = Name 0 \<and>
   AddPrimitive (Name 0) (A_Namespace namespace_anon) fresh_db = Inl AssertionFailed"
  by (simp add: AddPrimitive_def namespace_anon_def)

text \<open>
  C1 (amended): a Field whose name is the sentinel is inserted into the unnamed Field
  store under the hash of its parent; a primitive of any other kind whose name is the
  sentinel fails the assertion, with no insertion; a primitive whose name is not the
  sentinel is inserted into the named store of its kind under the hash of its name.
\<close>

theorem C1_AddPrimitive_dispatch:
  "(prim_name prim = noName \<and> TYPE_of prim = T_Field \<longrightarrow>
      (\<exists>db'. AddPrimitive noName prim db = Inr db' \<and>
         store_contents Ref_UnnamedFields db' =
           mm_insert (first (prim_parent prim), prim) (store_contents Ref_UnnamedFields db))) \<and>
   (prim_name prim = noName \<and> TYPE_of prim \<noteq> T_Field \<longrightarrow>
      AddPrimitive noName prim db = Inl AssertionFailed) \<and>
   (prim_name prim \<noteq> noName \<longrightarrow>
      (\<exists>db'. AddPrimitive noName prim db = Inr db' \<and>
         store_contents (GetPrimitiveStore (TYPE_of prim)) db' =
           mm_insert (first (prim_name prim), prim)
             (store_contents (GetPrimitiveStore (TYPE_of prim)) db)))"
  by (cases prim) (simp_all add: AddPrimitive_def tagged_mm_insert)

theorem C1_AddPrimitive_dispatch_witness:
  "(\<exists>db'. AddPrimitive (Name 0) (A_Field field_anon) fresh_db = Inr db' \<and>
      store_contents Ref_UnnamedFields db' = [(5, A_Field field_anon)]) \<and>
   AddPrimitive (Name 0) (A_Class (class_Foo\<lparr>name := Name 0\<rparr>)) fresh_db = Inl AssertionFailed \<and>
   (\<exists>db'. AddPrimitive (Name 0) (A_Class class_Foo) fresh_db = Inr db' \<and>
      store_contents Ref_Classes db' = [(5, A_Class class_Foo)])"
  using C1_AddPrimitive_dispatch [of "A_Field field_anon" "Name 0" fresh_db]
    C1_AddPrimitive_dispatch [of "A_Class (class_Foo\<lparr>name := Name 0\<rparr>)" "Name 0" fresh_db]
    C1_AddPrimitive_dispatch [of "A_Class class_Foo" "Name 0" fresh_db]
  by (simp add: example_defs tagged_def)

text \<open>
  C2: a primitive with a name, of any kind, added \<open>N\<close> times to a database. Every
  insertion succeeds and the named store of its kind has \<open>N\<close> entries more, none merged.
  The entries found under the hash of its name are the entries of the store that had that
  key before, in their order, followed by the \<open>N\<close> new ones: exactly the \<open>N\<close> new
  ones when the store had none of that key. The entries found under any other key are
  those that had that key before, the new ones not among them. \<open>GetFirstPrimitive\<close>
  with a string returns the first entry of the key that is the string's hash, the earliest
  inserted: the added primitive itself when the hash is that of its name and the store had
  no entry of that key before.
\<close>

theorem C2_repeated_insertion:
  assumes "Database_wf db" and "prim_name prim \<noteq> noName"
    and "store = GetPrimitiveStore (TYPE_of prim)" and "k = first (prim_name prim)"
  shows "\<exists>db'. AddPrimitives noName (replicate N prim) db = Inr db' \<and>
     length (store_contents store db') = length (store_contents store db) + N \<and>
     findAll store k db' =
       map snd (filter (\<lambda>x. fst x = k) (store_contents store db)) @ replicate N prim \<and>
     (k \<notin> fst ` set (store_contents store db) \<longrightarrow> findAll store k db' = replicate N prim) \<and>
     (\<forall>k'. k' \<noteq> k \<longrightarrow>
        findAll store k' db' = map snd (filter (\<lambda>x. fst x = k') (store_contents store db))) \<and>
     (\<forall>name_string.
        fst (GetFirstPrimitive HashNameString (TYPE_of prim) name_string db') =
          (case map snd (filter (\<lambda>x. fst x = HashNameString name_string)
                  (store_contents store db)) @
                (if HashNameString name_string = k then replicate N prim else []) of
             [] \<Rightarrow> None | p # ps \<Rightarrow> Some p)) \<and>
     (\<forall>name_string. HashNameString name_string = k \<and>
          k \<notin> fst ` set (store_contents store db) \<and> 0 < N \<longrightarrow>
        fst (GetFirstPrimitive HashNameString (TYPE_of prim) name_string db') = Some prim)"
proof -
  from AddPrimitives_named [of "replicate N prim" noName db] assms(2)
  obtain db' where run: "AddPrimitives noName (replicate N prim) db = Inr db'" by auto
  have ts: "target_store noName prim = store" and tk: "target_key noName prim = k"
    using assms(2,3,4) by (simp_all add: target_store_def target_key_def)
  have all: "findAll store k' db' =
      map snd (filter (\<lambda>x. fst x = k') (store_contents store db)) @
        (if k' = k then replicate N prim else [])" for k'
    using findAll_AddPrimitives [OF assms(1) run, of store k']
    by (auto simp: findAll_filter [OF assms(1)] ts tk)
  have len: "length (store_contents store db') = length (store_contents store db) + N"
    using length_store_contents_AddPrimitives [OF run, of store] by (simp add: ts)
  have none: "filter (\<lambda>x. fst x = k) (store_contents store db) = []"
    if "k \<notin> fst ` set (store_contents store db)"
    using that by (auto simp: filter_empty_conv)
  have first: "fst (GetFirstPrimitive HashNameString (TYPE_of prim) name_string db') =
          (case map snd (filter (\<lambda>x. fst x = HashNameString name_string)
                  (store_contents store db)) @
                (if HashNameString name_string = k then replicate N prim else []) of
             [] \<Rightarrow> None | p # ps \<Rightarrow> Some p)" for name_string
    using all [of "HashNameString name_string"]
    by (simp add: GetFirstPrimitive_findAll assms(3) [symmetric])
  have first': "fst (GetFirstPrimitive HashNameString (TYPE_of prim) name_string db') = Some prim"
    if "HashNameString name_string = k" "k \<notin> fst ` set (store_contents store db)" "0 < N"
    for name_string
    using that none first [of name_string] by (cases N) simp_all
  have c3: "findAll store k db' =
      map snd (filter (\<lambda>x. fst x = k) (store_contents store db)) @ replicate N prim"
    using all [of k] by simp
  have c4: "k \<notin> fst ` set (store_contents store db) \<longrightarrow>
      findAll store k db' = replicate N prim"
    using c3 none by simp
  have c5: "\<forall>k'. k' \<noteq> k \<longrightarrow>
      findAll store k' db' = map snd (filter (\<lambda>x. fst x = k') (store_contents store db))"
    using all by simp
  have c6: "\<forall>name_string.
      fst (GetFirstPrimitive HashNameString (TYPE_of prim) name_string db') =
        (case map snd (filter (\<lambda>x. fst x = HashNameString name_string)
                (store_contents store db)) @
              (if HashNameString name_string = k then replicate N prim else []) of
           [] \<Rightarrow> None | p # ps \<Rightarrow> Some p)"
    using first by blast
  have c7: "\<forall>name_string. HashNameString name_string = k \<and>
        k \<notin> fst ` set (store_contents store db) \<and> 0 < N \<longrightarrow>
      fst (GetFirstPrimitive HashNameString (TYPE_of prim) name_string db') = Some prim"
    using first' by blast
  from run len c3 c4 c5 c6 c7 show ?thesis by blast
qed

theorem C2_repeated_insertion_witness:
  "Database_wf db_D \<and> prim_name (A_Function function_f) \<noteq> Name 0 \<and>
   prim_name (A_Function function_h) \<noteq> Name 0 \<and>
   AddPrimitives (Name 0) (replicate 3 (A_Function function_f)) db_D =
     Inr (db_D\<lparr>m_Functions := [(1, function_g), (20, function_f\<lparr>unique_id := 2\<rparr>),
       (20, function_f), (20, function_f), (20, function_f)]\<rparr>) \<and>
   (\<exists>db'. AddPrimitives (Name 0) (replicate 3 (A_Function function_f)) db_D = Inr db' \<and>
      length (store_contents Ref_Functions db') = 5 \<and>
      findAll Ref_Functions 20 db' =
        [A_Function (function_f\<lparr>unique_id := 2\<rparr>), A_Function function_f,
         A_Function function_f, A_Function function_f] \<and>
      findAll Ref_Functions 1 db' = [A_Function function_g] \<and>
      fst (GetFirstPrimitive length_hash T_Function ''void f(int, char**);'' db') =
        Some (A_Function (function_f\<lparr>unique_id := 2\<rparr>)) \<and>
      fst (GetFirstPrimitive length_hash T_Function ''g'' db') = Some (A_Function function_g)) \<and>
   (\<exists>db'. AddPrimitives (Name 0) (replicate 2 (A_Function function_h)) db_D = Inr db' \<and>
      7 \<notin> fst ` set (store_contents Ref_Functions db_D) \<and>
      findAll Ref_Functions 7 db' = [A_Function function_h, A_Function function_h] \<and>
      fst (GetFirstPrimitive length_hash T_Function ''h(bool)'' db') =
        Some (A_Function function_h))"
proof -
  have wf: "Database_wf db_D"
    by (simp add: db_D_def fresh_db_def empty_stores_def Database_wf_def sorted_store_def)
  have nf: "prim_name (A_Function function_f) \<noteq> Name 0" by (simp add: function_f_def)
  have nh: "prim_name (A_Function function_h) \<noteq> Name 0" by (simp add: function_h_def)
  have sf: "Ref_Functions = GetPrimitiveStore (TYPE_of (A_Function function_f))" by simp
  have sh: "Ref_Functions = GetPrimitiveStore (TYPE_of (A_Function function_h))" by simp
  have kf: "20 = first (prim_name (A_Function function_f))" by (simp add: function_f_def)
  have kh: "7 = first (prim_name (A_Function function_h))" by (simp add: function_h_def)
  have sc: "tagged A_Function (m_Functions db_D) =
      [(1, A_Function function_g), (20, A_Function (function_f\<lparr>unique_id := 2\<rparr>))]"
    by (simp add: db_D_def tagged_def)
  have hs: "length_hash ''void f(int, char**);'' = 20" "length_hash ''g'' = 1"
    "length_hash ''h(bool)'' = 7"
    by (simp_all add: length_hash_def)
  have run: "AddPrimitives (Name 0) (replicate 3 (A_Function function_f)) db_D =
     Inr (db_D\<lparr>m_Functions := [(1, function_g), (20, function_f\<lparr>unique_id := 2\<rparr>),
       (20, function_f), (20, function_f), (20, function_f)]\<rparr>)"
    by (simp add: numeral_3_eq_3 AddPrimitive_def db_D_def fresh_db_def empty_stores_def
        function_f_def)
  have 1: "\<exists>db'. AddPrimitives (Name 0) (replicate 3 (A_Function function_f)) db_D = Inr db' \<and>
      length (store_contents Ref_Functions db') = 5 \<and>
      findAll Ref_Functions 20 db' =
        [A_Function (function_f\<lparr>unique_id := 2\<rparr>), A_Function function_f,
         A_Function function_f, A_Function function_f] \<and>
      findAll Ref_Functions 1 db' = [A_Function function_g] \<and>
      fst (GetFirstPrimitive length_hash T_Function ''void f(int, char**);'' db') =
        Some (A_Function (function_f\<lparr>unique_id := 2\<rparr>)) \<and>
      fst (GetFirstPrimitive length_hash T_Function ''g'' db') = Some (A_Function function_g)"
  proof -
    from C2_repeated_insertion [OF wf nf sf kf, of 3 length_hash]
    obtain db' where r: "AddPrimitives (Name 0) (replicate 3 (A_Function function_f)) db_D = Inr db'"
      and l: "length (store_contents Ref_Functions db') =
        length (store_contents Ref_Functions db_D) + 3"
      and a: "findAll Ref_Functions 20 db' =
        map snd (filter (\<lambda>x. fst x = 20) (store_contents Ref_Functions db_D)) @
          replicate 3 (A_Function function_f)"
      and o: "\<forall>k'. k' \<noteq> 20 \<longrightarrow> findAll Ref_Functions k' db' =
        map snd (filter (\<lambda>x. fst x = k') (store_contents Ref_Functions db_D))"
      and g: "\<forall>name_string.
        fst (GetFirstPrimitive length_hash (TYPE_of (A_Function function_f)) name_string db') =
          (case map snd (filter (\<lambda>x. fst x = length_hash name_string)
                  (store_contents Ref_Functions db_D)) @
                (if length_hash name_string = 20 then replicate 3 (A_Function function_f)
                 else []) of
             [] \<Rightarrow> None | p # ps \<Rightarrow> Some p)"
      by blast
    have "length (store_contents Ref_Functions db') = 5" using l by (simp add: sc)
    moreover have "findAll Ref_Functions 20 db' =
        [A_Function (function_f\<lparr>unique_id := 2\<rparr>), A_Function function_f,
         A_Function function_f, A_Function function_f]"
      using a by (simp add: sc numeral_3_eq_3)
    moreover have "findAll Ref_Functions 1 db' = [A_Function function_g]"
      using o [rule_format, of 1] by (simp add: sc)
    moreover have "fst (GetFirstPrimitive length_hash T_Function ''void f(int, char**);'' db') =
        Some (A_Function (function_f\<lparr>unique_id := 2\<rparr>))"
      using g [rule_format, of "''void f(int, char**);''"] by (simp add: sc hs)
    moreover have "fst (GetFirstPrimitive length_hash T_Function ''g'' db') =
        Some (A_Function function_g)"
      using g [rule_format, of "''g''"] by (simp add: sc hs)
    ultimately show ?thesis using r by blast
  qed
  have 2: "\<exists>db'. AddPrimitives (Name 0) (replicate 2 (A_Function function_h)) db_D = Inr db' \<and>
      7 \<notin> fst ` set (store_contents Ref_Functions db_D) \<and>
      findAll Ref_Functions 7 db' = [A_Function function_h, A_Function function_h] \<and>
      fst (GetFirstPrimitive length_hash T_Function ''h(bool)'' db') =
        Some (A_Function function_h)"
  proof -
    have absent: "7 \<notin> fst ` set (store_contents Ref_Functions db_D)" by (simp add: sc)
    from C2_repeated_insertion [OF wf nh sh kh, of 2 length_hash]
    obtain db' where r: "AddPrimitives (Name 0) (replicate 2 (A_Function function_h)) db_D = Inr db'"
      and a: "7 \<notin> fst ` set (store_contents Ref_Functions db_D) \<longrightarrow>
        findAll Ref_Functions 7 db' = replicate 2 (A_Function function_h)"
      and g: "\<forall>name_string. length_hash name_string = 7 \<and>
          7 \<notin> fst ` set (store_contents Ref_Functions db_D) \<and> 0 < (2::nat) \<longrightarrow>
        fst (GetFirstPrimitive length_hash (TYPE_of (A_Function function_h)) name_string db') =
          Some (A_Function function_h)"
      by blast
    have "findAll Ref_Functions 7 db' = [A_Function function_h, A_Function function_h]"
      using a absent by (simp add: numeral_2_eq_2)
    moreover have "fst (GetFirstPrimitive length_hash T_Function ''h(bool)'' db') =
        Some (A_Function function_h)"
      using g [rule_format, of "''h(bool)''"] absent by (simp add: hs)
    ultimately show ?thesis using r absent by blast
  qed
  from wf nf nh run 1 2 show ?thesis by blast
qed

text \<open>
  C10: a successful \<open>AddPrimitive\<close> leaves the name map as it is, leaves the named
  stores of all other kinds as they are, leaves the unnamed Field store as it is when the
  primitive has a name, and changes the contents of exactly one store.
\<close>

theorem C10_AddPrimitive_frame:
  assumes "AddPrimitive noName prim db = Inr db'"
  shows "m_Names db' = m_Names db \<and>
    (\<forall>T. T \<noteq> TYPE_of prim \<longrightarrow>
       store_contents (GetPrimitiveStore T) db' = store_contents (GetPrimitiveStore T) db) \<and>
    (prim_name prim \<noteq> noName \<longrightarrow> m_UnnamedFields db' = m_UnnamedFields db) \<and>
    (\<exists>!store. store_contents store db' \<noteq> store_contents store db)"
proof -
  note sc = store_contents_AddPrimitive [OF assms]
  have 1: "m_Names db' = m_Names db" using assms by (rule m_Names_AddPrimitive)
  have 2: "\<forall>T. T \<noteq> TYPE_of prim \<longrightarrow>
       store_contents (GetPrimitiveStore T) db' = store_contents (GetPrimitiveStore T) db"
    by (simp add: sc target_store_def GetPrimitiveStore_named GetPrimitiveStore_inj)
  have 3: "prim_name prim \<noteq> noName \<longrightarrow> m_UnnamedFields db' = m_UnnamedFields db"
    using assms by (simp add: m_UnnamedFields_AddPrimitive)
  have 4: "\<exists>!store. store_contents store db' \<noteq> store_contents store db"
  proof (rule ex1I [of _ "target_store noName prim"])
    show "store_contents (target_store noName prim) db' \<noteq>
        store_contents (target_store noName prim) db"
      by (simp add: sc mm_insert_neq)
  next
    fix store
    assume "store_contents store db' \<noteq> store_contents store db"
    then show "store = target_store noName prim" by (simp add: sc split: if_splits)
  qed
  show ?thesis using 1 2 3 4 by blast
qed

theorem C10_AddPrimitive_frame_witness:
  "AddPrimitive (Name 0) (A_Field field_x) db_A = Inr (db_A\<lparr>m_Fields := [(11, field_x)]\<rparr>) \<and>
   m_Names (db_A\<lparr>m_Fields := [(11, field_x)]\<rparr>) = m_Names db_A \<and>
   store_contents (GetPrimitiveStore T_Function) (db_A\<lparr>m_Fields := [(11, field_x)]\<rparr>) =
     store_contents (GetPrimitiveStore T_Function) db_A \<and>
   m_UnnamedFields (db_A\<lparr>m_Fields := [(11, field_x)]\<rparr>) = m_UnnamedFields db_A \<and>
   store_contents Ref_Fields (db_A\<lparr>m_Fields := [(11, field_x)]\<rparr>) \<noteq> store_contents Ref_Fields db_A"
proof -
  have run: "AddPrimitive (Name 0) (A_Field field_x) db_A = Inr (db_A\<lparr>m_Fields := [(11, field_x)]\<rparr>)"
    by (simp add: AddPrimitive_def db_A_def example_defs)
  from C10_AddPrimitive_frame [OF run] run show ?thesis
    by (simp add: db_A_def example_defs tagged_def)
qed

text \<open>
  C5: in a database filled by \<open>AddPrimitive\<close> from empty stores, a Field added with the
  sentinel as its name is among the unnamed Fields of its parent's hash and of no other
  key, no named store holds it under any key (no named store holds any primitive whose
  name is the sentinel), and \<open>GetFirstPrimitive\<close> returns it for no kind, hash function
  and string.
\<close>

theorem C5_anonymous_fields:
  assumes "AddPrimitives noName prims (empty_stores names) = Inr db"
    and "A_Field f \<in> set prims" and "name f = noName"
  shows "A_Field f \<in> set (findAll Ref_UnnamedFields (first (parent f)) db) \<and>
     (\<forall>k. k \<noteq> first (parent f) \<longrightarrow> A_Field f \<notin> set (findAll Ref_UnnamedFields k db)) \<and>
     (\<forall>T k. A_Field f \<notin> set (findAll (GetPrimitiveStore T) k db)) \<and>
     (\<forall>T k p. p \<in> set (findAll (GetPrimitiveStore T) k db) \<longrightarrow> prim_name p \<noteq> noName) \<and>
     (\<forall>HashNameString T name_string.
        fst (GetFirstPrimitive HashNameString T name_string db) \<noteq> Some (A_Field f))"
proof -
  have all: "findAll r k db =
      filter (\<lambda>p. target_store noName p = r \<and> target_key noName p = k) prims" for r k
    using findAll_AddPrimitives [OF Database_wf_empty_stores assms(1), of r k]
    by (simp add: findAll_empty_stores)
  have ts: "target_store noName (A_Field f) = Ref_UnnamedFields"
    and tk: "target_key noName (A_Field f) = first (parent f)"
    using assms(3) by (simp_all add: target_store_def target_key_def)
  have 1: "A_Field f \<in> set (findAll Ref_UnnamedFields (first (parent f)) db)"
    using assms(2) ts tk by (simp add: all)
  have 2: "\<forall>k. k \<noteq> first (parent f) \<longrightarrow> A_Field f \<notin> set (findAll Ref_UnnamedFields k db)"
    using tk by (auto simp: all)
  have 3: "\<forall>T k p. p \<in> set (findAll (GetPrimitiveStore T) k db) \<longrightarrow> prim_name p \<noteq> noName"
    by (auto simp: all target_store_def GetPrimitiveStore_named split: if_splits)
  have 4: "\<forall>T k. A_Field f \<notin> set (findAll (GetPrimitiveStore T) k db)"
  proof (intro allI notI)
    fix T k
    assume "A_Field f \<in> set (findAll (GetPrimitiveStore T) k db)"
    with 3 have "prim_name (A_Field f) \<noteq> noName" by blast
    then show False using assms(3) by simp
  qed
  have 5: "fst (GetFirstPrimitive H T s db) \<noteq> Some (A_Field f)" for H T s
  proof
    assume "fst (GetFirstPrimitive H T s db) = Some (A_Field f)"
    then have "A_Field f \<in> set (findAll (GetPrimitiveStore T) (H s) db)"
      by (auto simp: GetFirstPrimitive_findAll split: list.splits)
    then show False using 4 by blast
  qed
  show ?thesis using 1 2 3 4 5 by blast
qed

theorem C5_anonymous_fields_witness:
  "AddPrimitives (Name 0) [A_Class class_Foo, A_Field field_anon, A_Field field_x]
     (empty_stores Map.empty) = Inr db_C \<and>
   A_Field field_anon \<in> set [A_Class class_Foo, A_Field field_anon, A_Field field_x] \<and>
   name field_anon = Name 0 \<and>
   A_Field field_anon \<in> set (findAll Ref_UnnamedFields 5 db_C) \<and>
   A_Field field_anon \<notin> set (findAll Ref_UnnamedFields 11 db_C) \<and>
   A_Field field_anon \<notin> set (findAll Ref_Fields 5 db_C) \<and>
   fst (GetFirstPrimitive length_hash T_Field ''Hello'' db_C) \<noteq> Some (A_Field field_anon)"
proof -
  have run: "AddPrimitives (Name 0) [A_Class class_Foo, A_Field field_anon, A_Field field_x]
     (empty_stores Map.empty) = Inr db_C"
    by (simp add: AddPrimitive_def db_C_def example_defs)
  have mem: "A_Field field_anon \<in> set [A_Class class_Foo, A_Field field_anon, A_Field field_x]"
    by simp
  have nm: "name field_anon = Name 0" by (simp add: field_anon_def)
  have par: "first (parent field_anon) = 5" by (simp add: field_anon_def)
  from C5_anonymous_fields [OF run mem nm] have
    a: "A_Field field_anon \<in> set (findAll Ref_UnnamedFields (first (parent field_anon)) db_C)"
    and b: "\<forall>k. k \<noteq> first (parent field_anon) \<longrightarrow>
       A_Field field_anon \<notin> set (findAll Ref_UnnamedFields k db_C)"
    and c: "\<forall>T k. A_Field field_anon \<notin> set (findAll (GetPrimitiveStore T) k db_C)"
    and d: "\<forall>H T s. fst (GetFirstPrimitive H T s db_C) \<noteq> Some (A_Field field_anon)"
    by blast+
  from b have b': "A_Field field_anon \<notin> set (findAll Ref_UnnamedFields 11 db_C)"
    by (simp add: par)
  from c [rule_format, of T_Field 5]
  have c': "A_Field field_anon \<notin> set (findAll Ref_Fields 5 db_C)" by simp
  from a have a': "A_Field field_anon \<in> set (findAll Ref_UnnamedFields 5 db_C)"
    by (simp add: par)
  show ?thesis using run mem nm a' b' c' d by blast
qed

section \<open>Lookup\<close>

text \<open>
  C4: \<open>GetUnnamedPrimitiveStore\<close> returns a store for \<open>Field\<close>, the unnamed Field
  store, and fails its assertion for each of the six other kinds.
\<close>

theorem C4_GetUnnamedPrimitiveStore:
  "GetUnnamedPrimitiveStore T =
     (if T = T_Field then Inr Ref_UnnamedFields else Inl AssertionFailed)"
  by (cases T) simp_all

theorem C4_GetUnnamedPrimitiveStore_witness:
  "GetUnnamedPrimitiveStore T_Class = Inl AssertionFailed \<and>
   GetUnnamedPrimitiveStore T_Field = Inr Ref_UnnamedFields"
  using C4_GetUnnamedPrimitiveStore [of T_Class] C4_GetUnnamedPrimitiveStore [of T_Field]
  by simp

text \<open>
  C6: when the named store of a kind has no entry under the hash of a string,
  \<open>GetFirstPrimitive\<close> returns the null pointer, as a value.
\<close>

theorem C6_lookup_miss:
  assumes "HashNameString name_string \<notin> fst ` set (store_contents (GetPrimitiveStore T) db)"
  shows "fst (GetFirstPrimitive HashNameString T name_string db) = None"
  using mm_find_None [OF assms] by (simp add: GetFirstPrimitive_def)

theorem C6_lookup_miss_witness:
  "length_hash ''Bar'' \<notin> fst ` set (store_contents (GetPrimitiveStore T_Class) db_C) \<and>
   fst (GetFirstPrimitive length_hash T_Class ''Bar'' db_C) = None"
proof -
  have h: "length_hash ''Bar'' \<notin> fst ` set (store_contents (GetPrimitiveStore T_Class) db_C)"
    by (simp add: length_hash_def db_C_def tagged_def)
  from C6_lookup_miss [of length_hash "''Bar''" T_Class db_C] h show ?thesis by simp
qed

text \<open>
  C7: \<open>GetFirstPrimitive\<close> leaves the database as it is, the name map included, whatever
  the string and whether or not the lookup finds an entry.
\<close>

theorem C7_GetFirstPrimitive_frame:
  "snd (GetFirstPrimitive HashNameString T name_string db) = db \<and>
   m_Names (snd (GetFirstPrimitive HashNameString T name_string db)) = m_Names db"
  by (simp add: GetFirstPrimitive_def split: option.splits)

theorem C7_GetFirstPrimitive_frame_witness:
  "snd (GetFirstPrimitive length_hash T_Class ''Hello'' db_C) = db_C \<and>
   snd (GetFirstPrimitive length_hash T_Class ''Bar'' db_C) = db_C \<and>
   fst (GetFirstPrimitive length_hash T_Class ''Hello'' db_C) = Some (A_Class class_Foo)"
  using C7_GetFirstPrimitive_frame [of length_hash T_Class "''Hello''" db_C]
    C7_GetFirstPrimitive_frame [of length_hash T_Class "''Bar''" db_C]
  by (simp add: GetFirstPrimitive_def mm_find_def length_hash_def db_C_def tagged_def)

section \<open>Merge\<close>

text \<open>
  C3: after merging \<open>B\<close> into \<open>A\<close>, every query of every store (the seven named ones
  and the unnamed Field store) for every key returns \<open>A\<close>'s entries of that key followed
  by \<open>B\<close>'s, each side in its own order; every store has as many entries as the two
  sides together; \<open>B\<close> is as before.
\<close>

theorem C3_Merge_union:
  assumes "Database_wf A" and "Database_wf B"
  shows "(\<forall>store k. findAll store k (fst (Merge A B)) = findAll store k A @ findAll store k B) \<and>
     (\<forall>store. length (store_contents store (fst (Merge A B))) =
        length (store_contents store A) + length (store_contents store B)) \<and>
     snd (Merge A B) = B"
proof -
  have "snd (Merge A B) = B" by (simp add: Merge_def)
  then show ?thesis
    using assms
    by (simp add: findAll_def store_contents_Merge equal_range_mm_insert_range
        length_mm_insert_range Database_wf_iff)
qed

theorem C3_Merge_union_witness:
  "Database_wf db_A \<and> Database_wf db_B \<and>
   findAll Ref_Functions 20 (fst (Merge db_A db_B)) =
     [A_Function function_f, A_Function (function_f\<lparr>unique_id := 2\<rparr>)] \<and>
   findAll Ref_UnnamedFields 5 (fst (Merge db_A db_B)) = [A_Field field_anon] \<and>
   findAll Ref_Fields 11 (fst (Merge db_A db_B)) = [A_Field field_x] \<and>
   snd (Merge db_A db_B) = db_B"
proof -
  have wfA: "Database_wf db_A"
    by (simp add: db_A_def fresh_db_def empty_stores_def Database_wf_def sorted_store_def)
  have wfB: "Database_wf db_B"
    by (simp add: db_B_def fresh_db_def empty_stores_def Database_wf_def sorted_store_def)
  have ev: "findAll Ref_Functions 20 db_A = [A_Function function_f]"
    "findAll Ref_Functions 20 db_B = [A_Function (function_f\<lparr>unique_id := 2\<rparr>)]"
    "findAll Ref_UnnamedFields 5 db_A = [A_Field field_anon]"
    "findAll Ref_UnnamedFields 5 db_B = []"
    "findAll Ref_Fields 11 db_A = []"
    "findAll Ref_Fields 11 db_B = [A_Field field_x]"
    by (simp_all add: db_A_def db_B_def fresh_db_def empty_stores_def findAll_def
        equal_range_def tagged_def)
  from C3_Merge_union [OF wfA wfB] show ?thesis using wfA wfB by (simp add: ev)
qed

section \<open>Equality of primitives\<close>

text \<open>
  C8: two enumeration constants are equal exactly when name, parent and value are equal,
  and two functions exactly when name, parent and unique_id are equal.
\<close>

theorem C8_EnumConstant_Function_equality:
  "(EnumConstant_eq a b \<longleftrightarrow> name a = name b \<and> parent a = parent b \<and> value_c a = value_c b) \<and>
   (Function_eq f g \<longleftrightarrow> name f = name g \<and> parent f = parent g \<and> unique_id f = unique_id g)"
  by (simp add: EnumConstant_eq_def Function_eq_def)

theorem C8_EnumConstant_Function_equality_witness:
  "EnumConstant_eq enum_constant_A enum_constant_A \<and>
   \<not> EnumConstant_eq enum_constant_A (enum_constant_A\<lparr>value_c := 3\<rparr>) \<and>
   \<not> EnumConstant_eq enum_constant_A (enum_constant_A\<lparr>parent := Name 32\<rparr>) \<and>
   Function_eq function_f function_f \<and>
   \<not> Function_eq function_f (function_f\<lparr>unique_id := 2\<rparr>) \<and>
   \<not> Function_eq function_f (function_f\<lparr>name := Name 21\<rparr>)"
  using C8_EnumConstant_Function_equality
      [of enum_constant_A enum_constant_A function_f function_f]
    C8_EnumConstant_Function_equality
      [of enum_constant_A "enum_constant_A\<lparr>value_c := 3\<rparr>" function_f
        "function_f\<lparr>unique_id := 2\<rparr>"]
    C8_EnumConstant_Function_equality
      [of enum_constant_A "enum_constant_A\<lparr>parent := Name 32\<rparr>" function_f
        "function_f\<lparr>name := Name 21\<rparr>"]
  by (simp add: enum_constant_A_def function_f_def)

text \<open>
  C9: two Fields are equal exactly when name, parent, type, modifier, is_const, offset and
  parent_unique_id are all equal.
\<close>

theorem C9_Field_equality:
  "Field_eq a b \<longleftrightarrow>
     name a = name b \<and> parent a = parent b \<and> type a = type b \<and> modifier a = modifier b \<and>
     is_const a = is_const b \<and> offset a = offset b \<and> parent_unique_id a = parent_unique_id b"
  by (simp add: Field_eq_def)

theorem C9_Field_equality_witness:
  "Field_eq field_x field_x \<and> \<not> Field_eq field_x (field_x\<lparr>offset := 4\<rparr>) \<and>
   \<not> Field_eq field_x (field_x\<lparr>parent_unique_id := 1\<rparr>) \<and>
   \<not> Field_eq field_x (field_x\<lparr>is_const := True\<rparr>) \<and>
   \<not> Field_eq field_x (field_x\<lparr>modifier := MODIFIER_REFERENCE\<rparr>) \<and>
   \<not> Field_eq field_x (field_x\<lparr>type := Name 4\<rparr>)"
  using C9_Field_equality [of field_x field_x]
    C9_Field_equality [of field_x "field_x\<lparr>offset := 4\<rparr>"]
    C9_Field_equality [of field_x "field_x\<lparr>parent_unique_id := 1\<rparr>"]
    C9_Field_equality [of field_x "field_x\<lparr>is_const := True\<rparr>"]
    C9_Field_equality [of field_x "field_x\<lparr>modifier := MODIFIER_REFERENCE\<rparr>"]
    C9_Field_equality [of field_x "field_x\<lparr>type := Name 4\<rparr>"]
  by (simp add: field_x_def)

end
